theory Spec2Isabelle
  imports Main
begin

section \<open>JavaScript string primitives used by the content script\<close>

text \<open>
  A JavaScript string is modelled as a \<^typ>\<open>string\<close>, one \<^typ>\<open>char\<close> per code unit
  (code units below 256). \<open>text.length\<close> is \<^const>\<open>length\<close>, and a string is
  ``truthy'' exactly when it is not empty.
\<close>

definition newline :: char where
  "newline = CHR 0x0A"

text \<open>The characters removed by \<open>trim()\<close> and matched by \<open>\s\<close>: tab, line feed,
  vertical tab, form feed, carriage return, space and no-break space.\<close>

definition isWhiteSpace :: "char \<Rightarrow> bool" where
  "isWhiteSpace c \<longleftrightarrow>
     c = CHR 0x09 \<or> c = CHR 0x0A \<or> c = CHR 0x0B \<or> c = CHR 0x0C \<or> c = CHR 0x0D \<or>
     c = CHR 0x20 \<or> c = CHR 0xA0"

text \<open>\<open>\d\<close> of a regular expression: the ten ASCII digits.\<close>

definition isDigit :: "char \<Rightarrow> bool" where
  "isDigit c \<longleftrightarrow> c \<in> set ''0123456789''"

definition trim :: "string \<Rightarrow> string" where
  "trim s = rev (dropWhile isWhiteSpace (rev (dropWhile isWhiteSpace s)))"

fun startsWith :: "string \<Rightarrow> string \<Rightarrow> bool" where
  "startsWith s [] = True"
| "startsWith [] (p # ps) = False"
| "startsWith (c # cs) (p # ps) = (c = p \<and> startsWith cs ps)"

text \<open>\<open>s.includes(sub)\<close> on strings: \<open>sub\<close> occurs somewhere in \<open>s\<close>.\<close>

fun str_includes :: "string \<Rightarrow> string \<Rightarrow> bool" where
  "str_includes [] sub = (sub = [])"
| "str_includes (c # cs) sub = (startsWith (c # cs) sub \<or> str_includes cs sub)"

text \<open>\<open>s.split(sep)\<close> for a separator of one character; \<open>''''.split(sep)\<close> is
  the list holding one empty string.\<close>

fun js_split :: "string \<Rightarrow> char \<Rightarrow> string list" where
  "js_split [] sep = [[]]"
| "js_split (c # cs) sep =
     (if c = sep then [] # js_split cs sep
      else (case js_split cs sep of
              [] \<Rightarrow> [[c]]
            | piece # pieces \<Rightarrow> (c # piece) # pieces))"

text \<open>\<open>s.replace(pat, '''')\<close> with a string pattern: the first occurrence of \<open>pat\<close>
  is removed, the rest of \<open>s\<close> is kept.\<close>

fun replace_first :: "string \<Rightarrow> string \<Rightarrow> string" where
  "replace_first [] pat = []"
| "replace_first (c # cs) pat =
     (if startsWith (c # cs) pat then drop (length pat) (c # cs)
      else c # replace_first cs pat)"

section \<open>Message Extractor: the noise filter\<close>

text \<open>\<open>/^\d{1,2}[:.]\d{2}/\<close>: one or two digits, a colon or a dot, two digits, at the
  start of the text.\<close>

fun clockAfterHour :: "string \<Rightarrow> bool" where
  "clockAfterHour (c # d1 # d2 # rest) \<longleftrightarrow> (c = CHR '':'' \<or> c = CHR ''.'') \<and> isDigit d1 \<and> isDigit d2"
| "clockAfterHour _ \<longleftrightarrow> False"

fun matchesTimestamp :: "string \<Rightarrow> bool" where
  "matchesTimestamp (h1 # rest) \<longleftrightarrow>
     isDigit h1 \<and>
     ((case rest of h2 # rest2 \<Rightarrow> isDigit h2 \<and> clockAfterHour rest2 | [] \<Rightarrow> False)
      \<or> clockAfterHour rest)"
| "matchesTimestamp [] \<longleftrightarrow> False"

text \<open>\<open>/^[\d\s:apm]+$/i\<close>: the whole text is a non-empty run of digits, white space,
  colons and the letters a, p, m in either case.\<close>

definition isTimeChar :: "char \<Rightarrow> bool" where
  "isTimeChar c \<longleftrightarrow> isDigit c \<or> isWhiteSpace c \<or> c \<in> set '':apmAPM''"

definition matchesOnlyTime :: "string \<Rightarrow> bool" where
  "matchesOnlyTime s \<longleftrightarrow> s \<noteq> [] \<and> list_all isTimeChar s"

definition isUserMessage :: "string \<Rightarrow> bool" where
  "isUserMessage text \<longleftrightarrow>
     text \<noteq> [] \<and>
     length text > 2 \<and>
     length text < 300 \<and>
     \<not> matchesTimestamp text \<and>
     \<not> matchesOnlyTime text \<and>
     \<not> str_includes text ''http'' \<and>
     \<not> str_includes text ''@'' \<and>
     length (js_split text (CHR '' '')) > 1"

section \<open>Response Parser\<close>

record analysis_result =
  level :: string
  toxicPerson :: string
  behaviors :: "string list"
  problem :: string
  suggestion :: string

definition defaultResult :: analysis_result where
  "defaultResult =
     \<lparr> level = ''None'',
       toxicPerson = ''None'',
       behaviors = [''No toxic behaviors detected''],
       problem = ''No significant issues'',
       suggestion = ''Keep up the good communication'' \<rparr>"

definition knownLevels :: "string list" where
  "knownLevels = [''Low'', ''Medium'', ''High'', ''None'']"

definition knownPersons :: "string list" where
  "knownPersons = [''Person A'', ''Person B'', ''Both'', ''None'']"

text \<open>\<open>behaviors.split(',').map(b => b.trim()).filter(b => b)\<close>\<close>

definition splitBehaviors :: "string \<Rightarrow> string list" where
  "splitBehaviors b = filter (\<lambda>x. x \<noteq> []) (map trim (js_split b (CHR '','')))"

text \<open>The body of the \<open>forEach\<close> over the lines of the response.\<close>

definition parseLine :: "analysis_result \<Rightarrow> string \<Rightarrow> analysis_result" where
  "parseLine result line =
     (let cleanLine = trim line in
      if startsWith cleanLine ''Level:'' then
        (let lvl = trim (replace_first cleanLine ''Level:'') in
         result\<lparr>level := (if lvl \<in> set knownLevels then lvl else ''None'')\<rparr>)
      else if startsWith cleanLine ''ToxicPerson:'' then
        (let person = trim (replace_first cleanLine ''ToxicPerson:'') in
         result\<lparr>toxicPerson := (if person \<in> set knownPersons then person else ''None'')\<rparr>)
      else if startsWith cleanLine ''Behaviors:'' then
        (let b = trim (replace_first cleanLine ''Behaviors:'') in
         if b \<noteq> [] \<and> \<not> str_includes b ''No toxic behaviors''
         then result\<lparr>behaviors := splitBehaviors b\<rparr> else result)
      else if startsWith cleanLine ''Problem:'' then
        (let p = trim (replace_first cleanLine ''Problem:'') in
         if p \<noteq> [] \<and> \<not> str_includes p ''No significant issues''
         then result\<lparr>problem := p\<rparr> else result)
      else if startsWith cleanLine ''Suggestion:'' then
        (let sg = trim (replace_first cleanLine ''Suggestion:'') in
         if sg \<noteq> [] \<and> \<not> str_includes sg ''Keep up the good communication''
         then result\<lparr>suggestion := sg\<rparr> else result)
      else result)"

definition parseAnalysis :: "string \<Rightarrow> analysis_result" where
  "parseAnalysis analysis = foldl parseLine defaultResult (js_split analysis newline)"

section \<open>Message Extractor: reading the changed nodes\<close>

text \<open>
  The DOM is outside the program. A changed node is modelled by what the script reads from
  it: whether it is an element, its \<open>textContent\<close>, and for each selector the script
  uses the \<open>textContent\<close> of the elements \<open>querySelectorAll\<close> returns, in document
  order. The selectors are named after the CSS selector strings of the source.
\<close>

datatype selector =
    WhatsAppMsgContainer | WhatsAppMessageIn | WhatsAppMessageOut | WhatsAppSelectableText
  | MessengerLogRow | MessengerAriaMessage | MessengerMsg
  | TelegramMessage | TelegramBubble
  | DiscordChatMessage | DiscordMessageContent

record dom_node =
  isElement :: bool
  textContent :: string
  querySelectorAll :: "selector \<Rightarrow> string list"

datatype mutation_type = ChildList | Attributes | CharacterData

record mutation_record =
  mutationType :: mutation_type
  addedNodes :: "dom_node list"

datatype platform = WhatsApp | Messenger | Telegram | Discord | UnknownPlatform

definition detectPlatform :: "string \<Rightarrow> platform" where
  "detectPlatform url =
     (if str_includes url ''web.whatsapp.com'' then WhatsApp
      else if str_includes url ''messenger.com'' then Messenger
      else if str_includes url ''web.telegram.org'' then Telegram
      else if str_includes url ''discord.com'' then Discord
      else UnknownPlatform)"

text \<open>The two nested loops shared by the four platform extractors: the text of the first
  element, selector by selector, that is not empty and passes the filter; the text of the
  whole node when there is none.\<close>

definition extractBySelectors :: "selector list \<Rightarrow> dom_node \<Rightarrow> string" where
  "extractBySelectors selectors node =
     (case find (\<lambda>t. t \<noteq> [] \<and> isUserMessage t)
             (concat (map (querySelectorAll node) selectors)) of
        Some t \<Rightarrow> t
      | None \<Rightarrow> textContent node)"

definition extractWhatsAppMessage :: "dom_node \<Rightarrow> string" where
  "extractWhatsAppMessage =
     extractBySelectors
       [WhatsAppMsgContainer, WhatsAppMessageIn, WhatsAppMessageOut, WhatsAppSelectableText]"

definition extractMessengerMessage :: "dom_node \<Rightarrow> string" where
  "extractMessengerMessage =
     extractBySelectors [MessengerLogRow, MessengerAriaMessage, MessengerMsg]"

definition extractTelegramMessage :: "dom_node \<Rightarrow> string" where
  "extractTelegramMessage = extractBySelectors [TelegramMessage, TelegramBubble]"

definition extractDiscordMessage :: "dom_node \<Rightarrow> string" where
  "extractDiscordMessage = extractBySelectors [DiscordChatMessage, DiscordMessageContent]"

definition extractMessageText :: "string \<Rightarrow> dom_node \<Rightarrow> string" where
  "extractMessageText url node =
     trim (case detectPlatform url of
             WhatsApp \<Rightarrow> extractWhatsAppMessage node
           | Messenger \<Rightarrow> extractMessengerMessage node
           | Telegram \<Rightarrow> extractTelegramMessage node
           | Discord \<Rightarrow> extractDiscordMessage node
           | UnknownPlatform \<Rightarrow> textContent node)"

text \<open>\<open>messages.add(text)\<close> on a JavaScript \<open>Set\<close>, which keeps insertion order.\<close>

definition setAdd :: "string list \<Rightarrow> string \<Rightarrow> string list" where
  "setAdd messages t = (if t \<in> set messages then messages else messages @ [t])"

definition candidateTexts :: "string \<Rightarrow> mutation_record list \<Rightarrow> string list" where
  "candidateTexts url mutations =
     concat (map (\<lambda>m. if mutationType m = ChildList
                       then map (extractMessageText url) (filter isElement (addedNodes m))
                       else [])
                 mutations)"

definition extractNewMessages :: "string \<Rightarrow> mutation_record list \<Rightarrow> string list" where
  "extractNewMessages url mutations =
     foldl setAdd [] (filter (\<lambda>t. t \<noteq> [] \<and> isUserMessage t) (candidateTexts url mutations))"

section \<open>Remote Classifier Client\<close>

record http_response =
  ok :: bool
  status :: int
  errorPayload :: "string option"
  candidateText :: "string option"

text \<open>What \<open>await fetch(...)\<close> delivers: a rejection, or a response whose JSON body holds
  an \<open>error\<close> member or not and a text at \<open>candidates[0].content.parts[0].text\<close> or not.\<close>

datatype fetch_result = FetchRejected string | FetchResolved http_response

datatype remote_error =
    ApiStatusError int | ApiErrorPayload string | InvalidResponse | TransportError string

definition sendToGemini :: "fetch_result \<Rightarrow> remote_error + string" where
  "sendToGemini r =
     (case r of
        FetchRejected m \<Rightarrow> Inl (TransportError m)
      | FetchResolved response \<Rightarrow>
          if \<not> ok response then Inl (ApiStatusError (status response))
          else (case errorPayload response of
                  Some m \<Rightarrow> Inl (ApiErrorPayload m)
                | None \<Rightarrow>
                    (case candidateText response of
                       None \<Rightarrow> Inl InvalidResponse
                     | Some t \<Rightarrow> if t = [] then Inl InvalidResponse else Inr t)))"

section \<open>The analyzer\<close>

record settings =
  apiKey :: "string option"
  analysisDelay :: "int option"
  messageCount :: "int option"
  sensitivity :: "string option"

datatype level_emoji = RedCircle | YellowCircle | GreenCircle | WhiteCircle

record detail_view =
  shownLevel :: string
  shownEmoji :: level_emoji
  headline :: string
  personAStatus :: string
  personBStatus :: string
  personAText :: string
  personBText :: string
  behaviorTags :: "string list"
  example :: "string option"
  suggestionText :: string

datatype render_model = PositiveFeedback | Detail detail_view

text \<open>What the content area of the indicator holds. \<open>ErrorView e\<close> is the ``Temporary
  Issue'' card with the text \<open>Analysis error:\<close> followed by the message of \<open>e\<close>.\<close>

datatype view =
    ListeningView
  | LoadingView nat
  | ErrorView remote_error
  | MessageView string string
  | AnalysisView render_model

text \<open>The fields of \<open>ToxicityAnalyzer\<close>. The indicator element is created by the
  constructor and never set to \<open>null\<close> afterwards, so it is modelled by its content and
  its \<open>toxicity-hidden\<close> class. \<open>observer\<close> tells whether a mutation observer is
  connected. \<open>requests\<close> records the conversations handed to the remote call, oldest
  first: it is the trace of the program's outbound effect.\<close>

record analyzer =
  isActive :: bool
  settings :: settings
  lastAnalysisTime :: int
  messageBuffer :: "string list"
  analysisInProgress :: bool
  indicatorContent :: view
  indicatorHidden :: bool
  observer :: bool
  consecutiveEmptyAnalyses :: nat
  requests :: "string list"

definition constructor :: analyzer where
  "constructor =
     \<lparr> isActive = False,
       settings = \<lparr> apiKey = None, analysisDelay = None, messageCount = None,
                    sensitivity = None \<rparr>,
       lastAnalysisTime = 0,
       messageBuffer = [],
       analysisInProgress = False,
       indicatorContent = ListeningView,
       indicatorHidden = True,
       observer = False,
       consecutiveEmptyAnalyses = 0,
       requests = [] \<rparr>"

definition showIndicator :: "analyzer \<Rightarrow> analyzer" where
  "showIndicator s = s\<lparr>indicatorHidden := False\<rparr>"

definition hideIndicator :: "analyzer \<Rightarrow> analyzer" where
  "hideIndicator s = s\<lparr>indicatorHidden := True\<rparr>"

definition showLoading :: "analyzer \<Rightarrow> analyzer" where
  "showLoading s = showIndicator (s\<lparr>indicatorContent := LoadingView (length (messageBuffer s))\<rparr>)"

definition showError :: "analyzer \<Rightarrow> remote_error \<Rightarrow> analyzer" where
  "showError s e = showIndicator (s\<lparr>indicatorContent := ErrorView e\<rparr>)"

definition showMessage :: "analyzer \<Rightarrow> string \<Rightarrow> string \<Rightarrow> analyzer" where
  "showMessage s message type = showIndicator (s\<lparr>indicatorContent := MessageView message type\<rparr>)"

subsection \<open>Presentation\<close>

definition getPersonStatus :: "string \<Rightarrow> string \<Rightarrow> string" where
  "getPersonStatus person tp =
     (if tp = ''Person '' @ person then ''toxic''
      else if tp = ''Both'' then ''moderate''
      else if tp = ''None'' then ''good''
      else ''neutral'')"

definition getStatusText :: "string \<Rightarrow> string" where
  "getStatusText st =
     (if st = ''toxic'' then ''Needs Attention''
      else if st = ''moderate'' then ''Some Concerns''
      else if st = ''good'' then ''Good''
      else ''Neutral'')"

definition levelEmoji :: "string \<Rightarrow> level_emoji" where
  "levelEmoji l =
     (if l = ''High'' then RedCircle
      else if l = ''Medium'' then YellowCircle
      else if l = ''Low'' then GreenCircle
      else WhiteCircle)"

definition renderAnalysis :: "analyzer \<Rightarrow> analysis_result \<Rightarrow> render_model" where
  "renderAnalysis s analysis =
     (let personA = getPersonStatus ''A'' (toxicPerson analysis);
          personB = getPersonStatus ''B'' (toxicPerson analysis)
      in if consecutiveEmptyAnalyses s \<ge> 2 \<and> level analysis = ''None'' then PositiveFeedback
         else Detail
           \<lparr> shownLevel = level analysis,
             shownEmoji = levelEmoji (level analysis),
             headline = (if level analysis = ''None'' then ''No Toxicity Detected''
                         else ''Toxicity: '' @ level analysis),
             personAStatus = personA,
             personBStatus = personB,
             personAText = getStatusText personA,
             personBText = getStatusText personB,
             behaviorTags = behaviors analysis,
             example = (if problem analysis \<noteq> ''No significant issues''
                        then Some (problem analysis) else None),
             suggestionText = suggestion analysis \<rparr>)"

text \<open>\<open>displayAnalysis\<close>. Its \<open>catch\<close> branch is not modelled: on a string neither
  \<open>parseAnalysis\<close> nor \<open>renderAnalysis\<close> throws.\<close>

definition displayAnalysis :: "analyzer \<Rightarrow> string \<Rightarrow> analyzer" where
  "displayAnalysis s analysis =
     (let parsed = parseAnalysis analysis;
          s1 = (if level parsed = ''None'' \<and> toxicPerson parsed = ''None''
                then s\<lparr>consecutiveEmptyAnalyses := consecutiveEmptyAnalyses s + 1\<rparr>
                else s\<lparr>consecutiveEmptyAnalyses := 0\<rparr>)
      in showIndicator (s1\<lparr>indicatorContent := AnalysisView (renderAnalysis s1 parsed)\<rparr>))"

subsection \<open>The analysis cycle\<close>

fun labelMessages :: "nat \<Rightarrow> string list \<Rightarrow> string list" where
  "labelMessages index [] = []"
| "labelMessages index (msg # msgs) =
     (''Person '' @ (if index mod 2 = 0 then ''A'' else ''B'') @ '': '' @ msg)
       # labelMessages (Suc index) msgs"

fun joinLines :: "string list \<Rightarrow> string" where
  "joinLines [] = []"
| "joinLines [l] = l"
| "joinLines (l # ls) = l @ [newline] @ joinLines ls"

definition formatConversation :: "analyzer \<Rightarrow> string" where
  "formatConversation s = joinLines (labelMessages 0 (messageBuffer s))"

text \<open>
  \<open>analyzeConversation\<close> is \<open>async\<close>: it runs up to \<open>await this.sendToGemini(...)\<close>,
  where the request leaves, and is resumed when the call settles.
  \<open>analyzeConversation now\<close> is the first part, with \<open>now\<close> the value of
  \<open>Date.now()\<close> it reads; \<open>analyzeConversationResume\<close> is the rest: the \<open>try\<close> block
  after the \<open>await\<close>, its \<open>catch\<close> and its \<open>finally\<close>.
\<close>

definition analyzeConversation :: "analyzer \<Rightarrow> int \<Rightarrow> analyzer" where
  "analyzeConversation s now =
     (if length (messageBuffer s) < 2 \<or> analysisInProgress s then s
      else (let s1 = showLoading (s\<lparr>analysisInProgress := True, lastAnalysisTime := now\<rparr>)
            in s1\<lparr>requests := requests s1 @ [formatConversation s1]\<rparr>))"

definition analyzeConversationResume :: "analyzer \<Rightarrow> fetch_result \<Rightarrow> analyzer" where
  "analyzeConversationResume s r =
     (let s1 = (case sendToGemini r of
                  Inr analysis \<Rightarrow> displayAnalysis s analysis
                | Inl e \<Rightarrow> showError s e)
      in s1\<lparr>analysisInProgress := False\<rparr>)"

subsection \<open>Conversation Buffer and the observer callback\<close>

text \<open>The \<open>forEach\<close> over \<open>newMessages\<close>.\<close>

fun pushNew :: "string list \<Rightarrow> string list \<Rightarrow> string list" where
  "pushNew buffer [] = buffer"
| "pushNew buffer (msg # msgs) =
     pushNew (if msg \<notin> set buffer \<and> isUserMessage msg then buffer @ [msg] else buffer) msgs"

text \<open>\<open>settings.messageCount || 10\<close> and \<open>(settings.analysisDelay || 10) * 1000\<close>: a
  missing value, \<open>NaN\<close> (both \<open>None\<close>) and 0 give the default.\<close>

definition maxMessages :: "settings \<Rightarrow> int" where
  "maxMessages st = (case messageCount st of None \<Rightarrow> 10 | Some n \<Rightarrow> if n = 0 then 10 else n)"

definition delay :: "settings \<Rightarrow> int" where
  "delay st = (case analysisDelay st of None \<Rightarrow> 10 | Some d \<Rightarrow> if d = 0 then 10 else d) * 1000"

text \<open>\<open>xs.slice(start)\<close>: a negative \<open>start\<close> counts from the end.\<close>

definition slice :: "'a list \<Rightarrow> int \<Rightarrow> 'a list" where
  "slice xs start =
     (let len = int (length xs);
          k = (if start < 0 then max (len + start) 0 else min start len)
      in drop (nat k) xs)"

definition truncateBuffer :: "string list \<Rightarrow> int \<Rightarrow> string list" where
  "truncateBuffer buffer cap =
     (if int (length buffer) > cap then slice buffer (- cap) else buffer)"

text \<open>The callback of the mutation observer. \<open>url\<close> is \<open>window.location.href\<close>,
  \<open>now\<close> the \<open>Date.now()\<close> of the throttle and \<open>now2\<close> the one read by
  \<open>analyzeConversation\<close> when it is called.\<close>

definition observerCallback ::
  "analyzer \<Rightarrow> string \<Rightarrow> mutation_record list \<Rightarrow> int \<Rightarrow> int \<Rightarrow> analyzer" where
  "observerCallback s url mutations now now2 =
     (if \<not> isActive s \<or> analysisInProgress s then s
      else (let newMessages = extractNewMessages url mutations in
            if length newMessages > 0 then
              (let s1 = s\<lparr>messageBuffer :=
                           truncateBuffer (pushNew (messageBuffer s) newMessages)
                                          (maxMessages (settings s))\<rparr>
               in if now - lastAnalysisTime s1 > delay (settings s1)
                     \<and> length (messageBuffer s1) \<ge> 2
                  then analyzeConversation s1 now2
                  else s1)
            else s))"

subsection \<open>Session control\<close>

definition startObserving :: "analyzer \<Rightarrow> analyzer" where
  "startObserving s = s\<lparr>observer := True\<rparr>"

definition stopObserving :: "analyzer \<Rightarrow> analyzer" where
  "stopObserving s = s\<lparr>observer := False\<rparr>"

definition startAnalysis :: "analyzer \<Rightarrow> settings \<Rightarrow> analyzer" where
  "startAnalysis s st =
     showMessage (startObserving (showIndicator (s\<lparr>isActive := True, settings := st\<rparr>)))
       ''Active - analyzing messages as they appear...'' ''loading''"

definition stopAnalysis :: "analyzer \<Rightarrow> analyzer" where
  "stopAnalysis s =
     (hideIndicator (stopObserving (s\<lparr>isActive := False\<rparr>)))
       \<lparr>messageBuffer := [], consecutiveEmptyAnalyses := 0\<rparr>"

subsection \<open>Events\<close>

text \<open>
  The script is driven by events, one at a time: the two control messages, a batch of
  mutation records (delivered only while an observer is connected), the settling of the
  outstanding remote call (there is one exactly while \<open>analysisInProgress\<close> holds), and
  a click on the close button of the indicator.
\<close>

datatype event =
    StartAnalysis settings
  | StopAnalysis
  | Mutations string "mutation_record list" int int
  | CallSettled fetch_result
  | CloseClicked

fun step :: "analyzer \<Rightarrow> event \<Rightarrow> analyzer" where
  "step s (StartAnalysis st) = startAnalysis s st"
| "step s StopAnalysis = stopAnalysis s"
| "step s (Mutations url mutations now now2) =
     (if observer s then observerCallback s url mutations now now2 else s)"
| "step s (CallSettled r) = (if analysisInProgress s then analyzeConversationResume s r else s)"
| "step s CloseClicked = hideIndicator s"

definition run :: "event list \<Rightarrow> analyzer" where
  "run events = foldl step constructor events"

section \<open>Vocabulary of the properties and example inputs\<close>

text \<open>White-space delimited tokens, as the specification counts them: the non-empty
  pieces between white-space characters. No function of the source computes them;
  \<open>isUserMessage\<close> counts the pieces of \<open>split(' ')\<close> instead.\<close>

fun splitWhere :: "(char \<Rightarrow> bool) \<Rightarrow> string \<Rightarrow> string list" where
  "splitWhere isSep [] = [[]]"
| "splitWhere isSep (c # cs) =
     (if isSep c then [] # splitWhere isSep cs
      else (case splitWhere isSep cs of
              [] \<Rightarrow> [[c]]
            | piece # pieces \<Rightarrow> (c # piece) # pieces))"

definition whitespaceTokens :: "string \<Rightarrow> string list" where
  "whitespaceTokens s = filter (\<lambda>t. t \<noteq> []) (splitWhere isWhiteSpace s)"

text \<open>Events that end or cut an analysis cycle: the settling of a call, and a stop.\<close>

fun isCycleBoundary :: "event \<Rightarrow> bool" where
  "isCycleBoundary StopAnalysis = True"
| "isCycleBoundary (CallSettled r) = True"
| "isCycleBoundary _ = False"

text \<open>The value of a labelled line, as \<open>parseLine\<close> computes it: the trimmed line
  without its label, trimmed again.\<close>

definition labelledValue :: "string \<Rightarrow> string \<Rightarrow> string" where
  "labelledValue label line = trim (replace_first (trim line) label)"

text \<open>Every field of \<open>r\<close> is its default or a recognised value taken from a labelled line
  among \<open>ls\<close>.\<close>

definition parsedFrom :: "string set \<Rightarrow> analysis_result \<Rightarrow> bool" where
  "parsedFrom ls r \<longleftrightarrow>
     level r \<in> set knownLevels \<and>
     (level r = ''None'' \<or>
      (\<exists>l\<in>ls. startsWith (trim l) ''Level:'' \<and> level r = labelledValue ''Level:'' l)) \<and>
     toxicPerson r \<in> set knownPersons \<and>
     (toxicPerson r = ''None'' \<or>
      (\<exists>l\<in>ls. startsWith (trim l) ''ToxicPerson:'' \<and>
                toxicPerson r = labelledValue ''ToxicPerson:'' l)) \<and>
     (behaviors r = [''No toxic behaviors detected''] \<or>
      (\<exists>l\<in>ls. startsWith (trim l) ''Behaviors:'' \<and>
                behaviors r = splitBehaviors (labelledValue ''Behaviors:'' l))) \<and>
     (problem r = ''No significant issues'' \<or>
      (\<exists>l\<in>ls. startsWith (trim l) ''Problem:'' \<and> problem r = labelledValue ''Problem:'' l
                \<and> problem r \<noteq> [])) \<and>
     (suggestion r = ''Keep up the good communication'' \<or>
      (\<exists>l\<in>ls. startsWith (trim l) ''Suggestion:'' \<and>
                suggestion r = labelledValue ''Suggestion:'' l \<and> suggestion r \<noteq> []))"

text \<open>A fully-formed response: the five labelled lines in order, each label followed by one
  space and the value, the behaviours separated by a comma and a space. A value is plain
  when it is not empty, has no white space at either end and no line break.\<close>

fun joinComma :: "string list \<Rightarrow> string" where
  "joinComma [] = []"
| "joinComma [b] = b"
| "joinComma (b # bs) = b @ '', '' @ joinComma bs"

definition fiveLineResponse :: "string \<Rightarrow> string \<Rightarrow> string list \<Rightarrow> string \<Rightarrow> string \<Rightarrow> string" where
  "fiveLineResponse lv tp bs p sg =
     joinLines [''Level: '' @ lv, ''ToxicPerson: '' @ tp, ''Behaviors: '' @ joinComma bs,
                ''Problem: '' @ p, ''Suggestion: '' @ sg]"

definition plainValue :: "string \<Rightarrow> bool" where
  "plainValue v \<longleftrightarrow> v \<noteq> [] \<and> trim v = v \<and> newline \<notin> set v"

text \<open>A node with text and no matching descendants, a batch adding such nodes, settings
  as the popup sends them, and a successful response carrying a text.\<close>

definition plainNode :: "string \<Rightarrow> dom_node" where
  "plainNode t = \<lparr> isElement = True, textContent = t, querySelectorAll = (\<lambda>_. []) \<rparr>"

definition addedTexts :: "string list \<Rightarrow> mutation_record list" where
  "addedTexts ts = [\<lparr> mutationType = ChildList, addedNodes = map plainNode ts \<rparr>]"

definition exampleSettings :: settings where
  "exampleSettings =
     \<lparr> apiKey = Some ''AIzaKey'', analysisDelay = Some 10, messageCount = Some 10,
       sensitivity = Some ''medium'' \<rparr>"

text \<open>The same settings with a buffer capacity of two messages.\<close>

definition smallSettings :: settings where
  "smallSettings = exampleSettings\<lparr>messageCount := Some 2\<rparr>"

definition resolvedText :: "string \<Rightarrow> fetch_result" where
  "resolvedText t =
     FetchResolved \<lparr> ok = True, status = 200, errorPayload = None, candidateText = Some t \<rparr>"

definition chatUrl :: string where
  "chatUrl = ''https://web.whatsapp.com/''"

text \<open>A session that has just started; the same session after a batch of two messages
  has fired an analysis whose call is outstanding; and after that call has settled.\<close>

definition startedState :: analyzer where
  "startedState = run [StartAnalysis exampleSettings]"

definition inFlightState :: analyzer where
  "inFlightState =
     run [StartAnalysis exampleSettings,
          Mutations chatUrl (addedTexts [''hi there'', ''how are you'']) 20000 20001]"

definition settledState :: analyzer where
  "settledState = step inFlightState (CallSettled (resolvedText ''Level: None''))"

text \<open>A response with a non-success status.\<close>

definition serverError :: http_response where
  "serverError = \<lparr> ok = False, status = 500, errorPayload = None, candidateText = None \<rparr>"

section \<open>Properties\<close>

lemmas ui_defs = showIndicator_def hideIndicator_def showLoading_def showError_def showMessage_def

subsection \<open>Analysis Scheduler\<close>

text \<open>
  C2. During an active session a mutation batch fires an analysis cycle (a request leaves)
  if and only if the batch yields at least one new message (\<open>newMessages\<close> is not
  empty), the buffer after the update holds at least two messages, no call is in flight,
  and the time since \<open>lastAnalysisTime\<close> is strictly more than the configured delay (in
  milliseconds). When it fires, \<open>lastAnalysisTime\<close> is the time read at the trigger and
  the call is outstanding, so the timestamp is taken before the call completes; when it
  does not fire, no request leaves and timestamp and gate are as before.
\<close>

theorem trigger_condition:
  assumes "isActive s"
  shows "let s' = observerCallback s url ms now now2 in
     (length (requests s') = Suc (length (requests s)) \<longleftrightarrow>
        extractNewMessages url ms \<noteq> [] \<and> length (messageBuffer s') \<ge> 2 \<and>
        \<not> analysisInProgress s \<and> now - lastAnalysisTime s > delay (settings s)) \<and>
     (length (requests s') = Suc (length (requests s)) \<longrightarrow>
        lastAnalysisTime s' = now2 \<and> analysisInProgress s') \<and>
     (length (requests s') \<noteq> Suc (length (requests s)) \<longrightarrow>
        requests s' = requests s \<and> lastAnalysisTime s' = lastAnalysisTime s \<and>
        analysisInProgress s' = analysisInProgress s)"
  using assms
  by (auto simp: observerCallback_def analyzeConversation_def Let_def ui_defs)

text \<open>The trigger condition at a started session: a batch of two messages, twenty seconds
  after the initial timestamp 0, fires, and the timestamp becomes the trigger time.\<close>

theorem trigger_condition_witness:
  "isActive startedState \<and>
   length (requests (observerCallback startedState chatUrl
                       (addedTexts [''hi there'', ''how are you'']) 20000 20001))
     = Suc (length (requests startedState)) \<and>
   lastAnalysisTime (observerCallback startedState chatUrl
                       (addedTexts [''hi there'', ''how are you'']) 20000 20001) = 20001"
proof -
  have active: "isActive startedState"
    by code_simp
  have fired: "length (requests (observerCallback startedState chatUrl
                       (addedTexts [''hi there'', ''how are you'']) 20000 20001))
     = Suc (length (requests startedState))"
    by code_simp
  from trigger_condition [OF active, of chatUrl "addedTexts [''hi there'', ''how are you'']"
      20000 20001] fired
  have "lastAnalysisTime (observerCallback startedState chatUrl
                       (addedTexts [''hi there'', ''how are you'']) 20000 20001) = 20001"
    by (simp add: Let_def)
  with active fired show ?thesis by simp
qed

text \<open>A new message of the batch need not be new to the buffer: when the only text of the
  batch is already buffered, nothing is appended, and the analysis fires all the same.\<close>

lemma repeated_message_fires:
  "messageBuffer (observerCallback settledState chatUrl (addedTexts [''hi there'']) 40000 40001)
     = messageBuffer settledState \<and>
   length (requests (observerCallback settledState chatUrl (addedTexts [''hi there''])
                       40000 40001))
     = Suc (length (requests settledState))"
  by code_simp

text \<open>
  C4, as the code has it. While a call is in flight the observer callback returns at once:
  the batch is dropped, the buffer is neither appended to nor truncated, and no analysis is
  triggered. The whole state is unchanged.
\<close>

theorem in_flight_batch_ignored:
  "analysisInProgress s \<Longrightarrow> observerCallback s url ms now now2 = s"
  by (simp add: observerCallback_def)

theorem in_flight_batch_ignored_witness:
  "analysisInProgress inFlightState \<and>
   observerCallback inFlightState chatUrl (addedTexts [''i am fine thanks'']) 40000 40001
     = inFlightState"
proof -
  have flying: "analysisInProgress inFlightState"
    by code_simp
  from in_flight_batch_ignored [OF flying] flying show ?thesis by simp
qed

text \<open>C4 as stated fails: in an active session with a call in flight, a batch with a new
  qualifying message leaves the buffer as it was, not appended and truncated.\<close>

theorem in_flight_buffer_update_counterexample:
  "isActive inFlightState \<and> analysisInProgress inFlightState \<and>
   messageBuffer (step inFlightState
                    (Mutations chatUrl (addedTexts [''i am fine thanks'']) 40000 40001))
   \<noteq> truncateBuffer
        (pushNew (messageBuffer inFlightState)
                 (extractNewMessages chatUrl (addedTexts [''i am fine thanks''])))
        (maxMessages (settings inFlightState))"
  by code_simp

text \<open>
  C10. \<open>stopAnalysis\<close> empties the buffer and resets the streak counter but keeps
  \<open>lastAnalysisTime\<close>, and \<open>startAnalysis\<close> keeps it too. So in the session started
  after a stop, a batch that arrives no later than the new delay after the previous
  session's last trigger sends no request and leaves the timestamp alone.
\<close>

theorem stop_keeps_last_analysis_time:
  "lastAnalysisTime (stopAnalysis s) = lastAnalysisTime s \<and>
   messageBuffer (stopAnalysis s) = [] \<and>
   consecutiveEmptyAnalyses (stopAnalysis s) = 0 \<and>
   lastAnalysisTime (startAnalysis (stopAnalysis s) st) = lastAnalysisTime s \<and>
   (now - lastAnalysisTime s \<le> delay st \<longrightarrow>
      requests (observerCallback (startAnalysis (stopAnalysis s) st) url ms now now2)
        = requests s \<and>
      lastAnalysisTime (observerCallback (startAnalysis (stopAnalysis s) st) url ms now now2)
        = lastAnalysisTime s)"
  by (auto simp: stopAnalysis_def startAnalysis_def startObserving_def stopObserving_def
        observerCallback_def analyzeConversation_def Let_def ui_defs)

text \<open>The previous session triggered at 20001; restarted, a batch of two messages at
  25000 is throttled, with a delay of ten seconds.\<close>

theorem stop_keeps_last_analysis_time_witness:
  "25000 - lastAnalysisTime settledState \<le> delay exampleSettings \<and>
   lastAnalysisTime settledState = 20001 \<and>
   requests (observerCallback (startAnalysis (stopAnalysis settledState) exampleSettings)
               chatUrl (addedTexts [''are you there'', ''yes i am'']) 25000 25001)
     = requests settledState"
proof -
  have last: "lastAnalysisTime settledState = 20001"
    by code_simp
  have early: "25000 - lastAnalysisTime settledState \<le> delay exampleSettings"
    by code_simp
  from stop_keeps_last_analysis_time [of settledState exampleSettings 25000 chatUrl
      "addedTexts [''are you there'', ''yes i am'']" 25001] early last
  show ?thesis by simp
qed

subsection \<open>Failure of the remote call\<close>

text \<open>
  C7. When the outstanding call settles with a response that has a non-success status, or
  carries an error payload, or lacks the text (absent or empty), \<open>sendToGemini\<close> throws
  and the cycle catches it: the indicator shows the error card for that error and is
  visible, the session is as active as before, the in-flight gate is released, and buffer,
  timestamp and streak counter are untouched.
\<close>

theorem remote_failure_releases_gate:
  assumes "analysisInProgress s"
      and "\<not> ok resp \<or> errorPayload resp \<noteq> None \<or>
           candidateText resp = None \<or> candidateText resp = Some []"
  shows "\<exists>e. sendToGemini (FetchResolved resp) = Inl e \<and>
      (let s' = step s (CallSettled (FetchResolved resp)) in
        indicatorContent s' = ErrorView e \<and> \<not> indicatorHidden s' \<and>
        isActive s' = isActive s \<and> \<not> analysisInProgress s' \<and>
        messageBuffer s' = messageBuffer s \<and> lastAnalysisTime s' = lastAnalysisTime s \<and>
        consecutiveEmptyAnalyses s' = consecutiveEmptyAnalyses s)"
  using assms
  by (auto simp: sendToGemini_def analyzeConversationResume_def Let_def ui_defs
           split: option.splits)

text \<open>A status of 500 while the first call of a session is in flight.\<close>

theorem remote_failure_releases_gate_witness:
  "analysisInProgress inFlightState \<and> isActive inFlightState \<and>
   indicatorContent (step inFlightState (CallSettled (FetchResolved serverError)))
     = ErrorView (ApiStatusError 500) \<and>
   isActive (step inFlightState (CallSettled (FetchResolved serverError))) \<and>
   analysisInProgress (step inFlightState (CallSettled (FetchResolved serverError))) = False"
proof -
  have flying: "analysisInProgress inFlightState" and active: "isActive inFlightState"
    by code_simp+
  have bad: "\<not> ok serverError \<or> errorPayload serverError \<noteq> None \<or>
             candidateText serverError = None \<or> candidateText serverError = Some []"
    by (simp add: serverError_def)
  have thrown: "sendToGemini (FetchResolved serverError) = Inl (ApiStatusError 500)"
    by (simp add: sendToGemini_def serverError_def)
  from remote_failure_releases_gate [OF flying bad] thrown flying active
  show ?thesis by (auto simp: Let_def)
qed

subsection \<open>The streak of clean results\<close>

lemma step_keeps_streak:
  "\<not> isCycleBoundary e \<Longrightarrow> consecutiveEmptyAnalyses (step s e) = consecutiveEmptyAnalyses s"
  by (cases e) (auto simp: startAnalysis_def startObserving_def observerCallback_def
        analyzeConversation_def Let_def ui_defs)

lemma foldl_keeps_streak:
  "\<forall>e\<in>set es. \<not> isCycleBoundary e \<Longrightarrow>
     consecutiveEmptyAnalyses (foldl step s es) = consecutiveEmptyAnalyses s"
  by (induction es arbitrary: s) (simp_all add: step_keeps_streak)

text \<open>
  C9. Take two consecutive analysis cycles: a call settles with a text that parses to
  level None and toxic person None, then events follow among which no call settles and
  no stop occurs (but a next cycle is started), then that next call settles with a text
  that again parses to None and None. Then the indicator holds the positive ``healthy
  conversation'' variant, whatever happened before. And a cycle whose text parses to a
  level or a toxic person other than None leaves the streak counter at 0.
\<close>

theorem healthy_streak:
  "(analysisInProgress s \<and>
    sendToGemini r1 = Inr a1 \<and>
    level (parseAnalysis a1) = ''None'' \<and> toxicPerson (parseAnalysis a1) = ''None'' \<and>
    (\<forall>e\<in>set between. \<not> isCycleBoundary e) \<and>
    analysisInProgress (foldl step s (CallSettled r1 # between)) \<and>
    sendToGemini r2 = Inr a2 \<and>
    level (parseAnalysis a2) = ''None'' \<and> toxicPerson (parseAnalysis a2) = ''None''
    \<longrightarrow> indicatorContent (foldl step s (CallSettled r1 # between @ [CallSettled r2]))
          = AnalysisView PositiveFeedback) \<and>
   (analysisInProgress s \<and> sendToGemini r = Inr a \<and>
    (level (parseAnalysis a) \<noteq> ''None'' \<or> toxicPerson (parseAnalysis a) \<noteq> ''None'')
    \<longrightarrow> consecutiveEmptyAnalyses (step s (CallSettled r)) = 0)"
proof (intro conjI impI)
  assume h: "analysisInProgress s \<and>
    sendToGemini r1 = Inr a1 \<and>
    level (parseAnalysis a1) = ''None'' \<and> toxicPerson (parseAnalysis a1) = ''None'' \<and>
    (\<forall>e\<in>set between. \<not> isCycleBoundary e) \<and>
    analysisInProgress (foldl step s (CallSettled r1 # between)) \<and>
    sendToGemini r2 = Inr a2 \<and>
    level (parseAnalysis a2) = ''None'' \<and> toxicPerson (parseAnalysis a2) = ''None''"
  define s1 where "s1 = step s (CallSettled r1)"
  define s2 where "s2 = foldl step s1 between"
  have first: "consecutiveEmptyAnalyses s1 = consecutiveEmptyAnalyses s + 1"
    using h by (simp add: s1_def analyzeConversationResume_def displayAnalysis_def Let_def ui_defs)
  have kept: "consecutiveEmptyAnalyses s2 = consecutiveEmptyAnalyses s1"
    using h by (simp add: s2_def foldl_keeps_streak)
  have flying: "analysisInProgress s2"
    using h by (auto simp: s2_def s1_def)
  have "indicatorContent (step s2 (CallSettled r2)) = AnalysisView PositiveFeedback"
    using h flying first kept
    by (simp add: analyzeConversationResume_def displayAnalysis_def renderAnalysis_def
          Let_def ui_defs)
  then show "indicatorContent (foldl step s (CallSettled r1 # between @ [CallSettled r2]))
          = AnalysisView PositiveFeedback"
    by (simp add: s2_def s1_def)
next
  assume "analysisInProgress s \<and> sendToGemini r = Inr a \<and>
    (level (parseAnalysis a) \<noteq> ''None'' \<or> toxicPerson (parseAnalysis a) \<noteq> ''None'')"
  then show "consecutiveEmptyAnalyses (step s (CallSettled r)) = 0"
    by (auto simp: analyzeConversationResume_def displayAnalysis_def Let_def ui_defs)
qed

text \<open>The first cycle of a session answers \<open>Level: None\<close>; a third message arrives after
  the cooldown and starts the second cycle, which answers \<open>ToxicPerson: None\<close>.\<close>

theorem healthy_streak_witness:
  "analysisInProgress inFlightState \<and>
   indicatorContent
     (foldl step inFlightState
        (CallSettled (resolvedText ''Level: None'')
         # [Mutations chatUrl (addedTexts [''i am fine thanks'']) 40000 40001]
         @ [CallSettled (resolvedText ''ToxicPerson: None'')]))
     = AnalysisView PositiveFeedback"
proof -
  have h: "analysisInProgress inFlightState \<and>
    sendToGemini (resolvedText ''Level: None'') = Inr ''Level: None'' \<and>
    level (parseAnalysis ''Level: None'') = ''None'' \<and>
    toxicPerson (parseAnalysis ''Level: None'') = ''None'' \<and>
    (\<forall>e\<in>set [Mutations chatUrl (addedTexts [''i am fine thanks'']) 40000 40001].
        \<not> isCycleBoundary e) \<and>
    analysisInProgress
      (foldl step inFlightState
         (CallSettled (resolvedText ''Level: None'')
          # [Mutations chatUrl (addedTexts [''i am fine thanks'']) 40000 40001])) \<and>
    sendToGemini (resolvedText ''ToxicPerson: None'') = Inr ''ToxicPerson: None'' \<and>
    level (parseAnalysis ''ToxicPerson: None'') = ''None'' \<and>
    toxicPerson (parseAnalysis ''ToxicPerson: None'') = ''None''"
    by code_simp
  from healthy_streak [THEN conjunct1, rule_format, OF h] h show ?thesis by blast
qed

subsection \<open>Stop while a call is in flight\<close>

text \<open>
  C3 does not hold of the code. A session starts, a batch of two messages fires an
  analysis, the session is stopped (the indicator is hidden), and then the call settles
  with the text \<open>Level: High\<close>: \<open>displayAnalysis\<close> does not look at \<open>isActive\<close>, so
  the stopped analyzer renders the result and shows the indicator again.
\<close>

theorem late_result_rendered_after_stop:
  "run [StartAnalysis exampleSettings,
        Mutations chatUrl (addedTexts [''hi there'', ''how are you'']) 20000 20001,
        StopAnalysis,
        CallSettled (resolvedText ''Level: High'')]
   = \<lparr> isActive = False,
       settings = exampleSettings,
       lastAnalysisTime = 20001,
       messageBuffer = [],
       analysisInProgress = False,
       indicatorContent =
         AnalysisView
           (Detail
              \<lparr> shownLevel = ''High'', shownEmoji = RedCircle,
                headline = ''Toxicity: High'',
                personAStatus = ''good'', personBStatus = ''good'',
                personAText = ''Good'', personBText = ''Good'',
                behaviorTags = [''No toxic behaviors detected''],
                example = None,
                suggestionText = ''Keep up the good communication'' \<rparr>),
       indicatorHidden = False,
       observer = False,
       consecutiveEmptyAnalyses = 0,
       requests = [''Person A: hi there'' @ [newline] @ ''Person B: how are you''] \<rparr>"
  by code_simp

subsection \<open>Conversation Buffer\<close>

lemma distinct_pushNew: "distinct buffer \<Longrightarrow> distinct (pushNew buffer msgs)"
  by (induction msgs arbitrary: buffer) auto

lemma distinct_truncateBuffer: "distinct buffer \<Longrightarrow> distinct (truncateBuffer buffer cap)"
  by (simp add: truncateBuffer_def slice_def Let_def)

lemma length_truncateBuffer: "0 < cap \<Longrightarrow> int (length (truncateBuffer buffer cap)) \<le> cap"
  by (auto simp: truncateBuffer_def slice_def Let_def)

lemma maxMessages_nonzero: "maxMessages st \<noteq> 0"
  by (simp add: maxMessages_def split: option.splits)

lemma messageBuffer_analyzeConversation:
  "messageBuffer (analyzeConversation s now) = messageBuffer s"
  by (simp add: analyzeConversation_def Let_def ui_defs)

lemma settings_analyzeConversation:
  "settings (analyzeConversation s now) = settings s"
  by (simp add: analyzeConversation_def Let_def ui_defs)

lemma distinct_observerCallback:
  "distinct (messageBuffer s) \<Longrightarrow>
     distinct (messageBuffer (observerCallback s url ms now now2))"
  by (simp add: observerCallback_def Let_def distinct_pushNew distinct_truncateBuffer
        messageBuffer_analyzeConversation)

lemma distinct_step: "distinct (messageBuffer s) \<Longrightarrow> distinct (messageBuffer (step s e))"
  by (cases e)
     (auto simp: distinct_observerCallback startAnalysis_def stopAnalysis_def
        startObserving_def stopObserving_def analyzeConversationResume_def
        displayAnalysis_def Let_def ui_defs split: sum.splits)

lemma distinct_run: "distinct (messageBuffer (run events))"
  unfolding run_def
  by (induction events rule: rev_induct) (simp_all add: constructor_def distinct_step)

text \<open>An observer is connected exactly while the session is active.\<close>

lemma observer_step: "observer s = isActive s \<Longrightarrow> observer (step s e) = isActive (step s e)"
  by (cases e)
     (auto simp: observerCallback_def analyzeConversation_def startAnalysis_def
        stopAnalysis_def startObserving_def stopObserving_def analyzeConversationResume_def
        displayAnalysis_def Let_def ui_defs split: sum.splits)

lemma observer_run: "observer (run events) = isActive (run events)"
  unfolding run_def
  by (induction events rule: rev_induct) (simp_all add: constructor_def observer_step)

text \<open>
  C1. After any sequence of events from the construction of the analyzer, the buffer holds
  no string twice. And when a batch is processed in an active session and reaches the
  truncation (no call is in flight and the batch yields a new message), the buffer
  afterwards holds at most \<open>settings.messageCount || 10\<close> messages. The capacity is a
  count: the bound is stated for a \<open>messageCount\<close> that is not negative, as the popup's
  selection gives it.
\<close>

theorem buffer_bounded_and_distinct:
  "distinct (messageBuffer (run events)) \<and>
   (isActive (run events) \<and> \<not> analysisInProgress (run events) \<and>
    extractNewMessages url ms \<noteq> [] \<and> 0 \<le> maxMessages (settings (run events)) \<longrightarrow>
      int (length (messageBuffer (run (events @ [Mutations url ms now now2]))))
        \<le> maxMessages (settings (run (events @ [Mutations url ms now now2]))))"
proof (intro conjI impI)
  show "distinct (messageBuffer (run events))"
    by (rule distinct_run)
next
  assume h: "isActive (run events) \<and> \<not> analysisInProgress (run events) \<and>
    extractNewMessages url ms \<noteq> [] \<and> 0 \<le> maxMessages (settings (run events))"
  define s where "s = run events"
  have obs: "observer s"
    using h observer_run [of events] by (simp add: s_def)
  have pos: "0 < maxMessages (settings s)"
    using h maxMessages_nonzero [of "settings s"] by (simp add: s_def)
  have "run (events @ [Mutations url ms now now2]) = observerCallback s url ms now now2"
    using obs by (simp add: run_def s_def)
  moreover have "int (length (messageBuffer (observerCallback s url ms now now2)))
      \<le> maxMessages (settings (observerCallback s url ms now now2))"
    using h pos
    by (simp add: observerCallback_def Let_def s_def [symmetric] length_truncateBuffer
          messageBuffer_analyzeConversation settings_analyzeConversation)
  ultimately show "int (length (messageBuffer (run (events @ [Mutations url ms now now2]))))
        \<le> maxMessages (settings (run (events @ [Mutations url ms now now2])))"
    by simp
qed

text \<open>Three messages arrive in one batch in a session with capacity 2: the oldest one is
  dropped.\<close>

theorem buffer_bounded_and_distinct_witness:
  "isActive (run [StartAnalysis smallSettings]) \<and>
   analysisInProgress (run [StartAnalysis smallSettings]) = False \<and>
   messageBuffer
     (run ([StartAnalysis smallSettings]
           @ [Mutations chatUrl
                (addedTexts [''hi there'', ''how are you'', ''i am fine thanks''])
                20000 20001]))
     = [''how are you'', ''i am fine thanks''] \<and>
   int (length (messageBuffer
     (run ([StartAnalysis smallSettings]
           @ [Mutations chatUrl
                (addedTexts [''hi there'', ''how are you'', ''i am fine thanks''])
                20000 20001]))))
     \<le> maxMessages (settings
     (run ([StartAnalysis smallSettings]
           @ [Mutations chatUrl
                (addedTexts [''hi there'', ''how are you'', ''i am fine thanks''])
                20000 20001])))"
proof -
  have h: "isActive (run [StartAnalysis smallSettings]) \<and>
    \<not> analysisInProgress (run [StartAnalysis smallSettings]) \<and>
    extractNewMessages chatUrl
      (addedTexts [''hi there'', ''how are you'', ''i am fine thanks'']) \<noteq> [] \<and>
    0 \<le> maxMessages (settings (run [StartAnalysis smallSettings]))"
    by code_simp
  have kept: "messageBuffer
     (run ([StartAnalysis smallSettings]
           @ [Mutations chatUrl
                (addedTexts [''hi there'', ''how are you'', ''i am fine thanks''])
                20000 20001]))
     = [''how are you'', ''i am fine thanks'']"
    by code_simp
  from buffer_bounded_and_distinct [THEN conjunct2, rule_format, OF h] h kept
  show ?thesis by blast
qed

subsection \<open>Response Parser\<close>

lemma level_parseLine:
  "level (parseLine r l) =
     (if startsWith (trim l) ''Level:''
      then (if labelledValue ''Level:'' l \<in> set knownLevels
            then labelledValue ''Level:'' l else ''None'')
      else level r)"
  unfolding parseLine_def Let_def labelledValue_def by simp

lemma toxicPerson_parseLine:
  "toxicPerson (parseLine r l) =
     (if \<not> startsWith (trim l) ''Level:'' \<and> startsWith (trim l) ''ToxicPerson:''
      then (if labelledValue ''ToxicPerson:'' l \<in> set knownPersons
            then labelledValue ''ToxicPerson:'' l else ''None'')
      else toxicPerson r)"
  unfolding parseLine_def Let_def labelledValue_def by simp

lemma behaviors_parseLine:
  "behaviors (parseLine r l) = behaviors r \<or>
   (startsWith (trim l) ''Behaviors:'' \<and>
    behaviors (parseLine r l) = splitBehaviors (labelledValue ''Behaviors:'' l))"
  unfolding parseLine_def Let_def labelledValue_def by simp

lemma problem_parseLine:
  "problem (parseLine r l) = problem r \<or>
   (startsWith (trim l) ''Problem:'' \<and>
    problem (parseLine r l) = labelledValue ''Problem:'' l \<and> problem (parseLine r l) \<noteq> [])"
  unfolding parseLine_def Let_def labelledValue_def by simp

lemma suggestion_parseLine:
  "suggestion (parseLine r l) = suggestion r \<or>
   (startsWith (trim l) ''Suggestion:'' \<and>
    suggestion (parseLine r l) = labelledValue ''Suggestion:'' l \<and>
    suggestion (parseLine r l) \<noteq> [])"
  unfolding parseLine_def Let_def labelledValue_def by simp


lemma parsedFrom_default: "parsedFrom ls defaultResult"
  by (simp add: parsedFrom_def defaultResult_def knownLevels_def knownPersons_def)

lemma parsedFrom_mono: "parsedFrom ls r \<Longrightarrow> ls \<subseteq> ls' \<Longrightarrow> parsedFrom ls' r"
  unfolding parsedFrom_def by blast

lemma parsedFrom_parseLine:
  assumes inv: "parsedFrom ls r" and mem: "l \<in> ls"
  shows "parsedFrom ls (parseLine r l)"
proof -
  have nl: "''None'' \<in> set knownLevels" and np: "''None'' \<in> set knownPersons"
    by (simp_all add: knownLevels_def knownPersons_def)
  let ?r = "parseLine r l"
  have lv: "level ?r \<in> set knownLevels \<and>
     (level ?r = ''None'' \<or>
      (\<exists>l\<in>ls. startsWith (trim l) ''Level:'' \<and> level ?r = labelledValue ''Level:'' l))"
  proof (cases "startsWith (trim l) ''Level:''")
    case labelled: True
    show ?thesis
    proof (cases "labelledValue ''Level:'' l \<in> set knownLevels")
      case True
      with labelled have "level ?r = labelledValue ''Level:'' l"
        by (simp only: level_parseLine if_True)
      with True labelled mem show ?thesis by metis
    next
      case False
      with labelled have "level ?r = ''None''"
        by (simp only: level_parseLine if_True if_False)
      with nl show ?thesis by metis
    qed
  next
    case False
    then have "level ?r = level r"
      by (simp only: level_parseLine if_False)
    with inv show ?thesis unfolding parsedFrom_def by metis
  qed
  have tp: "toxicPerson ?r \<in> set knownPersons \<and>
     (toxicPerson ?r = ''None'' \<or>
      (\<exists>l\<in>ls. startsWith (trim l) ''ToxicPerson:'' \<and>
                toxicPerson ?r = labelledValue ''ToxicPerson:'' l))"
  proof (cases "\<not> startsWith (trim l) ''Level:'' \<and> startsWith (trim l) ''ToxicPerson:''")
    case labelled: True
    show ?thesis
    proof (cases "labelledValue ''ToxicPerson:'' l \<in> set knownPersons")
      case True
      with labelled have "toxicPerson ?r = labelledValue ''ToxicPerson:'' l"
        by (auto simp: toxicPerson_parseLine)
      with True labelled mem show ?thesis by metis
    next
      case False
      with labelled have "toxicPerson ?r = ''None''"
        by (auto simp: toxicPerson_parseLine)
      with np show ?thesis by metis
    qed
  next
    case False
    then have "toxicPerson ?r = toxicPerson r"
      by (auto simp: toxicPerson_parseLine)
    with inv show ?thesis unfolding parsedFrom_def by metis
  qed
  have bh: "behaviors ?r = [''No toxic behaviors detected''] \<or>
      (\<exists>l\<in>ls. startsWith (trim l) ''Behaviors:'' \<and>
                behaviors ?r = splitBehaviors (labelledValue ''Behaviors:'' l))"
    using inv mem behaviors_parseLine [of r l] unfolding parsedFrom_def by metis
  have pr: "problem ?r = ''No significant issues'' \<or>
      (\<exists>l\<in>ls. startsWith (trim l) ''Problem:'' \<and> problem ?r = labelledValue ''Problem:'' l
                \<and> problem ?r \<noteq> [])"
    using inv mem problem_parseLine [of r l] unfolding parsedFrom_def by metis
  have sg: "suggestion ?r = ''Keep up the good communication'' \<or>
      (\<exists>l\<in>ls. startsWith (trim l) ''Suggestion:'' \<and>
                suggestion ?r = labelledValue ''Suggestion:'' l \<and> suggestion ?r \<noteq> [])"
    using inv mem suggestion_parseLine [of r l] unfolding parsedFrom_def by metis
  from lv tp bh pr sg show ?thesis
    unfolding parsedFrom_def by blast
qed

lemma parsedFrom_foldl:
  "parsedFrom ls r \<Longrightarrow> set lines \<subseteq> ls \<Longrightarrow> parsedFrom ls (foldl parseLine r lines)"
  by (induction lines arbitrary: r) (simp_all add: parsedFrom_parseLine)

text \<open>
  C5. \<open>parseAnalysis\<close> is a total function on strings: \<open>split\<close>, \<open>trim\<close>,
  \<open>startsWith\<close>, \<open>replace\<close> and \<open>includes\<close> are defined on every string, and no
  branch of the loop throws. For every text its result has a recognised level and toxic
  person, and each of the five fields is the documented default or the value taken from a
  line of the text that carries the field's label (for problem and suggestion a non-empty
  value). The empty text gives the default record.
\<close>

theorem parseAnalysis_total:
  "parsedFrom (set (js_split analysis newline)) (parseAnalysis analysis) \<and>
   parseAnalysis [] = defaultResult"
proof
  show "parsedFrom (set (js_split analysis newline)) (parseAnalysis analysis)"
    by (simp add: parseAnalysis_def parsedFrom_foldl parsedFrom_default)
  show "parseAnalysis [] = defaultResult"
    by code_simp
qed

text \<open>A line with an unrecognised level and a line with no label: the default record.\<close>

theorem parseAnalysis_total_witness:
  "parsedFrom (set (js_split (''Level: Extreme'' @ [newline] @ ''hello'') newline))
     (parseAnalysis (''Level: Extreme'' @ [newline] @ ''hello'')) \<and>
   parseAnalysis (''Level: Extreme'' @ [newline] @ ''hello'') = defaultResult"
proof -
  have "parseAnalysis (''Level: Extreme'' @ [newline] @ ''hello'') = defaultResult"
    by code_simp
  with parseAnalysis_total [of "''Level: Extreme'' @ [newline] @ ''hello''"]
  show ?thesis by blast
qed

subsection \<open>Parsing a fully-formed response\<close>

lemma js_split_append_sep:
  "sep \<notin> set a \<Longrightarrow> js_split (a @ sep # rest) sep = a # js_split rest sep"
  by (induction a) auto

lemma js_split_no_sep: "sep \<notin> set a \<Longrightarrow> js_split a sep = [a]"
  by (induction a) auto

lemma dropWhile_shorter: "xs \<noteq> [] \<Longrightarrow> P (hd xs) \<Longrightarrow> length (dropWhile P xs) < length xs"
  by (cases xs) (auto simp: le_imp_less_Suc length_dropWhile_le)

lemma dropWhile_id_iff: "dropWhile P xs = xs \<longleftrightarrow> xs = [] \<or> \<not> P (hd xs)"
proof (cases xs)
  case Nil then show ?thesis by simp
next
  case (Cons x xs')
  show ?thesis
  proof (cases "P x")
    case True
    have "length (dropWhile P xs) < length xs"
      using dropWhile_shorter[of xs P] True Cons by simp
    then show ?thesis using True Cons by auto
  next
    case False then show ?thesis using Cons by simp
  qed
qed

lemma trim_id_iff:
  "trim s = s \<longleftrightarrow> s = [] \<or> (\<not> isWhiteSpace (hd s) \<and> \<not> isWhiteSpace (last s))"
proof (cases "s = []")
  case True then show ?thesis by (simp add: trim_def)
next
  case ne: False
  show ?thesis
  proof (cases "isWhiteSpace (hd s)")
    case True
    have "length (trim s) \<le> length (dropWhile isWhiteSpace s)"
      using length_dropWhile_le [of isWhiteSpace "rev (dropWhile isWhiteSpace s)"]
      by (simp add: trim_def)
    also have "\<dots> < length s" using dropWhile_shorter [of s isWhiteSpace] ne True by simp
    finally have "trim s \<noteq> s" by auto
    with True ne show ?thesis by simp
  next
    case False
    then have d: "dropWhile isWhiteSpace s = s" using dropWhile_id_iff[of isWhiteSpace s] by simp
    have "trim s = s \<longleftrightarrow> dropWhile isWhiteSpace (rev s) = rev s"
      by (simp add: trim_def d rev_swap)
    also have "\<dots> \<longleftrightarrow> \<not> isWhiteSpace (hd (rev s))"
      using dropWhile_id_iff[of isWhiteSpace "rev s"] ne by simp
    also have "\<dots> \<longleftrightarrow> \<not> isWhiteSpace (last s)"
      using ne by (simp add: hd_rev)
    finally show ?thesis using False ne by simp
  qed
qed

lemma trim_space_Cons: "trim (CHR '' '' # v) = trim v"
  by (simp add: trim_def isWhiteSpace_def)

lemma plainValue_ends:
  "plainValue v \<Longrightarrow> v \<noteq> [] \<and> \<not> isWhiteSpace (hd v) \<and> \<not> isWhiteSpace (last v) \<and> newline \<notin> set v"
  using trim_id_iff[of v] by (auto simp: plainValue_def)

lemma trim_labelled:
  assumes "plainValue v" "lab \<noteq> []" "\<not> isWhiteSpace (hd lab)"
  shows "trim (lab @ v) = lab @ v"
  using assms plainValue_ends[of v] trim_id_iff[of "lab @ v"] by simp


lemma js_split_joinComma:
  "\<forall>b\<in>set (b0 # bs). CHR '','' \<notin> set b \<Longrightarrow>
     js_split (joinComma (b0 # bs)) (CHR '','') = b0 # map (\<lambda>x. CHR '' '' # x) bs"
proof (induction bs arbitrary: b0)
  case Nil
  then show ?case by (simp add: js_split_no_sep)
next
  case (Cons b1 bs)
  have "joinComma (b0 # b1 # bs) = b0 @ CHR '','' # (CHR '' '' # joinComma (b1 # bs))"
    by simp
  then have "js_split (joinComma (b0 # b1 # bs)) (CHR '','')
      = b0 # js_split (CHR '' '' # joinComma (b1 # bs)) (CHR '','')"
    using Cons.prems js_split_append_sep [of "CHR '',''" b0] by simp
  also have "js_split (CHR '' '' # joinComma (b1 # bs)) (CHR '','')
      = (CHR '' '' # b1) # map (\<lambda>x. CHR '' '' # x) bs"
    using Cons.IH [of b1] Cons.prems by simp
  finally show ?case by simp
qed

lemma splitBehaviors_joinComma:
  assumes "bs \<noteq> []" and "\<forall>b\<in>set bs. plainValue b \<and> CHR '','' \<notin> set b"
  shows "splitBehaviors (joinComma bs) = bs"
proof -
  obtain b0 rest where bs: "bs = b0 # rest" using assms(1) by (cases bs) auto
  have t: "\<And>b. b \<in> set bs \<Longrightarrow> trim b = b \<and> b \<noteq> []"
    using assms(2) by (auto simp: plainValue_def)
  have "map trim (js_split (joinComma bs) (CHR '','')) = bs"
    using assms(2) t js_split_joinComma [of b0 rest]
    by (simp add: bs trim_space_Cons comp_def map_idI)
  then show ?thesis using t by (simp add: splitBehaviors_def filter_id_conv)
qed

lemma newline_joinComma:
  "\<forall>b\<in>set bs. newline \<notin> set b \<Longrightarrow> newline \<notin> set (joinComma bs)"
  by (induction bs rule: joinComma.induct) (auto simp: newline_def)

lemma joinComma_ends:
  "bs \<noteq> [] \<Longrightarrow> \<forall>b\<in>set bs. b \<noteq> [] \<Longrightarrow>
     joinComma bs \<noteq> [] \<and> last (joinComma bs) = last (last bs)"
  by (induction bs rule: joinComma.induct) auto

lemma joinComma_hd:
  "bs \<noteq> [] \<Longrightarrow> \<forall>b\<in>set bs. b \<noteq> [] \<Longrightarrow> hd (joinComma bs) = hd (hd bs)"
  by (induction bs rule: joinComma.induct) auto

lemma plainValue_joinComma:
  assumes "bs \<noteq> []" and "\<forall>b\<in>set bs. plainValue b"
  shows "plainValue (joinComma bs)"
proof -
  have ne: "\<forall>b\<in>set bs. b \<noteq> []" using assms(2) by (simp add: plainValue_def)
  have "hd bs \<in> set bs" and "last bs \<in> set bs" using assms(1) by simp_all
  then have "\<not> isWhiteSpace (hd (hd bs))" and "\<not> isWhiteSpace (last (last bs))"
    using assms(2) plainValue_ends by blast+
  then have "trim (joinComma bs) = joinComma bs"
    using trim_id_iff [of "joinComma bs"] joinComma_hd [OF assms(1) ne]
      joinComma_ends [OF assms(1) ne] by simp
  moreover have "newline \<notin> set (joinComma bs)"
    using assms(2) newline_joinComma [of bs] by (simp add: plainValue_def)
  ultimately show ?thesis
    using joinComma_ends [OF assms(1) ne] by (simp add: plainValue_def)
qed

lemma parseLine_level_values:
  "parseLine r ''Level: Low'' = r\<lparr>level := ''Low''\<rparr>"
  "parseLine r ''Level: Medium'' = r\<lparr>level := ''Medium''\<rparr>"
  "parseLine r ''Level: High'' = r\<lparr>level := ''High''\<rparr>"
  "parseLine r ''Level: None'' = r\<lparr>level := ''None''\<rparr>"
  by (simp_all add: parseLine_def Let_def trim_def isWhiteSpace_def knownLevels_def)

lemma knownLevels_cases:
  assumes "lv \<in> set knownLevels"
  obtains "lv = ''Low''" | "lv = ''Medium''" | "lv = ''High''" | "lv = ''None''"
  using assms unfolding knownLevels_def by fastforce

lemma parseLine_level:
  assumes "lv \<in> set knownLevels"
  shows "parseLine r (''Level: '' @ lv) = r\<lparr>level := lv\<rparr>"
  using assms
  by (cases rule: knownLevels_cases) (simp_all only: parseLine_level_values append.simps)

lemma newline_knownLevels: "lv \<in> set knownLevels \<Longrightarrow> newline \<notin> set lv"
  by (erule knownLevels_cases) (simp_all add: newline_def)

lemma parseLine_toxicPerson_values:
  "parseLine r ''ToxicPerson: Person A'' = r\<lparr>toxicPerson := ''Person A''\<rparr>"
  "parseLine r ''ToxicPerson: Person B'' = r\<lparr>toxicPerson := ''Person B''\<rparr>"
  "parseLine r ''ToxicPerson: Both'' = r\<lparr>toxicPerson := ''Both''\<rparr>"
  "parseLine r ''ToxicPerson: None'' = r\<lparr>toxicPerson := ''None''\<rparr>"
  by (simp_all add: parseLine_def Let_def trim_def isWhiteSpace_def knownPersons_def)

lemma knownPersons_cases:
  assumes "tp \<in> set knownPersons"
  obtains "tp = ''Person A''" | "tp = ''Person B''" | "tp = ''Both''" | "tp = ''None''"
  using assms unfolding knownPersons_def by fastforce

lemma parseLine_toxicPerson:
  assumes "tp \<in> set knownPersons"
  shows "parseLine r (''ToxicPerson: '' @ tp) = r\<lparr>toxicPerson := tp\<rparr>"
  using assms
  by (cases rule: knownPersons_cases) (simp_all only: parseLine_toxicPerson_values append.simps)

lemma newline_knownPersons: "tp \<in> set knownPersons \<Longrightarrow> newline \<notin> set tp"
  by (erule knownPersons_cases) (simp_all add: newline_def)

lemma parseLine_behaviors:
  assumes "plainValue b" and "\<not> str_includes b ''No toxic behaviors''"
  shows "parseLine r (''Behaviors: '' @ b) = r\<lparr>behaviors := splitBehaviors b\<rparr>"
proof -
  have t: "trim (''Behaviors: '' @ b) = ''Behaviors: '' @ b"
    using trim_labelled [OF assms(1), of "''Behaviors: ''"] by (simp add: isWhiteSpace_def)
  have v: "trim (CHR '' '' # b) = b" "b \<noteq> []"
    using assms(1) by (simp_all add: trim_space_Cons plainValue_def)
  show ?thesis
    unfolding parseLine_def Let_def t using v assms(2) by simp
qed

lemma parseLine_problem:
  assumes "plainValue p" and "\<not> str_includes p ''No significant issues''"
  shows "parseLine r (''Problem: '' @ p) = r\<lparr>problem := p\<rparr>"
proof -
  have t: "trim (''Problem: '' @ p) = ''Problem: '' @ p"
    using trim_labelled [OF assms(1), of "''Problem: ''"] by (simp add: isWhiteSpace_def)
  have v: "trim (CHR '' '' # p) = p" "p \<noteq> []"
    using assms(1) by (simp_all add: trim_space_Cons plainValue_def)
  show ?thesis
    unfolding parseLine_def Let_def t using v assms(2) by simp
qed

lemma parseLine_suggestion:
  assumes "plainValue sg" and "\<not> str_includes sg ''Keep up the good communication''"
  shows "parseLine r (''Suggestion: '' @ sg) = r\<lparr>suggestion := sg\<rparr>"
proof -
  have t: "trim (''Suggestion: '' @ sg) = ''Suggestion: '' @ sg"
    using trim_labelled [OF assms(1), of "''Suggestion: ''"] by (simp add: isWhiteSpace_def)
  have v: "trim (CHR '' '' # sg) = sg" "sg \<noteq> []"
    using assms(1) by (simp_all add: trim_space_Cons plainValue_def)
  show ?thesis
    unfolding parseLine_def Let_def t using v assms(2) by simp
qed

lemma js_split_five_lines:
  assumes "newline \<notin> set l1" "newline \<notin> set l2" "newline \<notin> set l3" "newline \<notin> set l4"
    "newline \<notin> set l5"
  shows "js_split (joinLines [l1, l2, l3, l4, l5]) newline = [l1, l2, l3, l4, l5]"
  using assms by (simp add: js_split_append_sep js_split_no_sep)

text \<open>
  C6. The five-line text of the scenario parses to the record of the scenario. In general,
  a five-line response with a recognised level and toxic person, at least one behaviour,
  plain behaviours without commas, a plain problem and a plain suggestion, none of the
  three values containing its sentinel phrase, parses to exactly these values.
\<close>

theorem parse_well_formed:
  "parseAnalysis
     (''Level: High'' @ [newline] @ ''ToxicPerson: Person A'' @ [newline]
      @ ''Behaviors: insults, sarcasm'' @ [newline]
      @ ''Problem: called other person names'' @ [newline]
      @ ''Suggestion: use respectful language'')
     = \<lparr> level = ''High'', toxicPerson = ''Person A'',
         behaviors = [''insults'', ''sarcasm''],
         problem = ''called other person names'',
         suggestion = ''use respectful language'' \<rparr> \<and>
   (lv \<in> set knownLevels \<and> tp \<in> set knownPersons \<and>
    bs \<noteq> [] \<and> (\<forall>b\<in>set bs. plainValue b \<and> CHR '','' \<notin> set b) \<and>
    \<not> str_includes (joinComma bs) ''No toxic behaviors'' \<and>
    plainValue p \<and> \<not> str_includes p ''No significant issues'' \<and>
    plainValue sg \<and> \<not> str_includes sg ''Keep up the good communication''
    \<longrightarrow> parseAnalysis (fiveLineResponse lv tp bs p sg)
          = \<lparr> level = lv, toxicPerson = tp, behaviors = bs, problem = p,
              suggestion = sg \<rparr>)"
proof (intro conjI impI)
  show "parseAnalysis
     (''Level: High'' @ [newline] @ ''ToxicPerson: Person A'' @ [newline]
      @ ''Behaviors: insults, sarcasm'' @ [newline]
      @ ''Problem: called other person names'' @ [newline]
      @ ''Suggestion: use respectful language'')
     = \<lparr> level = ''High'', toxicPerson = ''Person A'',
         behaviors = [''insults'', ''sarcasm''],
         problem = ''called other person names'',
         suggestion = ''use respectful language'' \<rparr>"
    by code_simp
next
  assume h: "lv \<in> set knownLevels \<and> tp \<in> set knownPersons \<and>
    bs \<noteq> [] \<and> (\<forall>b\<in>set bs. plainValue b \<and> CHR '','' \<notin> set b) \<and>
    \<not> str_includes (joinComma bs) ''No toxic behaviors'' \<and>
    plainValue p \<and> \<not> str_includes p ''No significant issues'' \<and>
    plainValue sg \<and> \<not> str_includes sg ''Keep up the good communication''"
  then have known: "lv \<in> set knownLevels" "tp \<in> set knownPersons"
    and list: "bs \<noteq> []" "\<forall>b\<in>set bs. plainValue b \<and> CHR '','' \<notin> set b"
    and nb: "\<not> str_includes (joinComma bs) ''No toxic behaviors''"
    and pp: "plainValue p" "\<not> str_includes p ''No significant issues''"
    and ps: "plainValue sg" "\<not> str_includes sg ''Keep up the good communication''"
    by blast+
  have pb: "plainValue (joinComma bs)"
    using list by (simp add: plainValue_joinComma)
  have n1: "newline \<notin> set (''Level: '' @ lv)"
    using newline_knownLevels [OF known(1)] by (simp add: newline_def)
  have n2: "newline \<notin> set (''ToxicPerson: '' @ tp)"
    using newline_knownPersons [OF known(2)] by (simp add: newline_def)
  have n3: "newline \<notin> set (''Behaviors: '' @ joinComma bs)"
    using pb by (simp add: plainValue_def newline_def)
  have n4: "newline \<notin> set (''Problem: '' @ p)"
    using pp(1) by (simp add: plainValue_def newline_def)
  have n5: "newline \<notin> set (''Suggestion: '' @ sg)"
    using ps(1) by (simp add: plainValue_def newline_def)
  have sb: "splitBehaviors (joinComma bs) = bs"
    using list by (simp add: splitBehaviors_joinComma)
  show "parseAnalysis (fiveLineResponse lv tp bs p sg)
     = \<lparr> level = lv, toxicPerson = tp, behaviors = bs, problem = p, suggestion = sg \<rparr>"
    unfolding parseAnalysis_def fiveLineResponse_def js_split_five_lines [OF n1 n2 n3 n4 n5]
    by (simp only: foldl.simps parseLine_level [OF known(1)]
          parseLine_toxicPerson [OF known(2)] parseLine_behaviors [OF pb nb]
          parseLine_problem [OF pp] parseLine_suggestion [OF ps] sb)
       (simp add: defaultResult_def)
qed

text \<open>Another fully-formed response, with one behaviour.\<close>

theorem parse_well_formed_witness:
  "parseAnalysis (fiveLineResponse ''Low'' ''Both'' [''sarcasm''] ''mocking tone'' ''be kind'')
     = \<lparr> level = ''Low'', toxicPerson = ''Both'', behaviors = [''sarcasm''],
         problem = ''mocking tone'', suggestion = ''be kind'' \<rparr>"
proof -
  have h: "''Low'' \<in> set knownLevels \<and> ''Both'' \<in> set knownPersons \<and>
    [''sarcasm''] \<noteq> [] \<and> (\<forall>b\<in>set [''sarcasm'']. plainValue b \<and> CHR '','' \<notin> set b) \<and>
    \<not> str_includes (joinComma [''sarcasm'']) ''No toxic behaviors'' \<and>
    plainValue ''mocking tone'' \<and> \<not> str_includes ''mocking tone'' ''No significant issues'' \<and>
    plainValue ''be kind'' \<and> \<not> str_includes ''be kind'' ''Keep up the good communication''"
    by code_simp
  from parse_well_formed [THEN conjunct2, rule_format, OF h] show ?thesis .
qed

subsection \<open>The one-word filter\<close>

text \<open>
  C8 does not hold of the code. The text \<open>hello\<close> followed by one space has a single
  white-space delimited token, and \<open>isUserMessage\<close> accepts it: \<open>split(' ')\<close> yields
  two pieces, the second one empty.
\<close>

theorem single_token_accepted:
  "length (whitespaceTokens ''hello '') = 1 \<and> isUserMessage ''hello ''"
  by code_simp

text \<open>What the last conjunct of \<open>isUserMessage\<close> does ensure: a text without a space
  character is rejected.\<close>

lemma isUserMessage_needs_space: "CHR '' '' \<notin> set text \<Longrightarrow> \<not> isUserMessage text"
  by (simp add: isUserMessage_def js_split_no_sep)

lemma splitWhere_nonempty: "splitWhere P s \<noteq> []"
  by (induction s) (auto split: list.splits)

lemma splitWhere_append_sep:
  "P c \<Longrightarrow> splitWhere P (a @ c # b) = splitWhere P a @ splitWhere P b"
proof (induction a)
  case Nil
  then show ?case by simp
next
  case (Cons x a)
  then show ?case
    using splitWhere_nonempty [of P a] by (cases "splitWhere P a") auto
qed

lemma whitespaceTokens_append_sep:
  "isWhiteSpace c \<Longrightarrow> whitespaceTokens (a @ c # b) = whitespaceTokens a @ whitespaceTokens b"
  by (simp add: whitespaceTokens_def splitWhere_append_sep)

lemma whitespaceTokens_nonempty:
  "\<exists>x\<in>set s. \<not> isWhiteSpace x \<Longrightarrow> whitespaceTokens s \<noteq> []"
proof (induction s)
  case Nil
  then show ?case by simp
next
  case (Cons x s)
  show ?case
  proof (cases "isWhiteSpace x")
    case True
    with Cons show ?thesis by (auto simp: whitespaceTokens_def)
  next
    case False
    then show ?thesis
      using splitWhere_nonempty [of isWhiteSpace s]
      by (cases "splitWhere isWhiteSpace s") (auto simp: whitespaceTokens_def)
  qed
qed

text \<open>On a text without white space at its ends, as \<open>extractMessageText\<close> returns
  it, a space inside separates two tokens, so there the filter does reject every text of
  fewer than two tokens.\<close>

lemma trimmed_single_token_rejected:
  assumes "trim text = text" and "length (whitespaceTokens text) < 2"
  shows "\<not> isUserMessage text"
proof
  assume "isUserMessage text"
  then have ne: "text \<noteq> []" and pieces: "length (js_split text (CHR '' '')) > 1"
    by (simp_all add: isUserMessage_def)
  have "CHR '' '' \<in> set text"
  proof (rule ccontr)
    assume "CHR '' '' \<notin> set text"
    then have "js_split text (CHR '' '') = [text]"
      by (rule js_split_no_sep)
    with pieces show False by simp
  qed
  then obtain a b where ab: "text = a @ CHR '' '' # b"
    by (auto simp: in_set_conv_decomp)
  have ends: "\<not> isWhiteSpace (hd text)" "\<not> isWhiteSpace (last text)"
    using assms(1) ne trim_id_iff [of "text"] by simp_all
  have sp: "isWhiteSpace (CHR '' '')" by (simp add: isWhiteSpace_def)
  have "a \<noteq> []" using ends(1) sp ab by (cases a) auto
  then have "hd text \<in> set a" using ab by (cases a) auto
  then have ta: "whitespaceTokens a \<noteq> []"
    using ends(1) whitespaceTokens_nonempty [of a] by blast
  have "b \<noteq> []" using ends(2) sp ab by auto
  then have "last text \<in> set b" using ab by simp
  then have tb: "whitespaceTokens b \<noteq> []"
    using ends(2) whitespaceTokens_nonempty [of b] by blast
  have "length (whitespaceTokens text) = length (whitespaceTokens a) + length (whitespaceTokens b)"
    using sp by (simp add: ab whitespaceTokens_append_sep)
  moreover have "length (whitespaceTokens a) \<ge> 1" "length (whitespaceTokens b) \<ge> 1"
    using ta tb by (simp_all add: Suc_leI)
  ultimately show False using assms(2) by simp
qed

end
